theory Spec2Isabelle
  imports Main "HOL-Library.Word"
begin

section \<open>Addresses, errors and flow metadata\<close>

text \<open>
  A \<^verbatim>\<open>netip.Addr\<close> is either the zero value (not valid) or an IPv4 or IPv6 address.
  The zero value is \<open>None\<close>; zones are not modelled.
\<close>

datatype IP = IPv4 "32 word" | IPv6 "128 word"

type_synonym Addr = "IP option"

definition IsValid :: "Addr \<Rightarrow> bool" where
  "IsValid a = (a \<noteq> None)"

text \<open>
  The errors the modelled functions produce. \<open>ErrExternal\<close> stands for an error handed
  back by a collaborator (a transport, the process finder, the packer), \<open>Panic\<close> for a
  run-time panic (an index out of range).
\<close>

datatype error =
    ErrIPNotFound
  | ErrIPVersion
  | ErrNoQuestion
  | ErrServerFailure
  | ErrAllFailed "error option"
  | ErrFakeRecordMissing Addr
  | ErrExternal string
  | Panic string

datatype NetWork = TCP | UDP

datatype DNSMode = DNSNormal | DNSMapping | DNSFakeIP

text \<open>The fields of \<^verbatim>\<open>C.Metadata\<close> that the tunnel reads and writes.\<close>

record Metadata =
  NetWork :: NetWork
  SrcIP :: Addr
  DstIP :: Addr
  SrcPort :: string
  DstPort :: string
  Host :: string
  DNSMode :: DNSMode
  Process :: string
  ProcessPath :: string

text \<open>
  The package-level collaborators of \<^verbatim>\<open>tunnel.go\<close>: \<^verbatim>\<open>netip.ParseAddr\<close>, the enhancer
  switches and lookups of package \<^verbatim>\<open>resolver\<close>, the static hosts table
  (\<^verbatim>\<open>DefaultHosts.Search\<close>, \<open>None\<close> for a nil node), \<^verbatim>\<open>resolver.ResolveIP\<close> and
  \<^verbatim>\<open>P.FindProcessName\<close>. A successfully parsed address is always valid.
\<close>

record Env =
  parseAddr :: "string \<Rightarrow> IP option"
  mappingEnabled :: bool
  fakeIPEnabled :: bool
  findHostByIP :: "Addr \<Rightarrow> string option"
  isFakeIP :: "Addr \<Rightarrow> bool"
  defaultHosts :: "string \<Rightarrow> Addr option"
  resolverResolveIP :: "string \<Rightarrow> error + Addr"
  findProcessName :: "NetWork \<Rightarrow> Addr \<Rightarrow> nat \<Rightarrow> error + string"

section \<open>Metadata preprocessing (\<^verbatim>\<open>preHandleMetadata\<close>)\<close>

definition needLookupIP :: "Env \<Rightarrow> Metadata \<Rightarrow> bool" where
  "needLookupIP e md = (mappingEnabled e \<and> Host md = [] \<and> IsValid (DstIP md))"

text \<open>The first block of \<^verbatim>\<open>preHandleMetadata\<close>: an IP literal in the host field.\<close>

definition handleIPOnHost :: "Env \<Rightarrow> Metadata \<Rightarrow> Metadata" where
  "handleIPOnHost e md =
     (case parseAddr e (Host md) of
        Some ip \<Rightarrow> md\<lparr>DstIP := Some ip, Host := []\<rparr>
      | None \<Rightarrow> md)"

text \<open>
  The metadata is mutated in place in the source; the model returns it together with
  the error (\<open>None\<close> for \<^verbatim>\<open>nil\<close>).
\<close>

definition preHandleMetadata :: "Env \<Rightarrow> Metadata \<Rightarrow> Metadata \<times> error option" where
  "preHandleMetadata e md0 =
     (let md = handleIPOnHost e md0 in
      if needLookupIP e md then
        (case findHostByIP e (DstIP md) of
           Some host \<Rightarrow>
             (let md1 = md\<lparr>Host := host, DNSMode := DNSMapping\<rparr> in
              if fakeIPEnabled e then (md1\<lparr>DstIP := None, DNSMode := DNSFakeIP\<rparr>, None)
              else (case defaultHosts e host of
                      Some ip \<Rightarrow> (md1\<lparr>DstIP := ip\<rparr>, None)
                    | None \<Rightarrow> (md1, None)))
         | None \<Rightarrow>
             if isFakeIP e (DstIP md) then (md, Some (ErrFakeRecordMissing (DstIP md)))
             else (md, None))
      else (md, None))"

section \<open>Rule matching (\<^verbatim>\<open>match\<close>)\<close>

text \<open>The \<^verbatim>\<open>C.Rule\<close> interface, and what \<^verbatim>\<open>match\<close> uses of \<^verbatim>\<open>C.Proxy\<close>.\<close>

record Rule =
  Payload :: string
  Match :: "Metadata \<Rightarrow> bool"
  Adapter :: string
  ShouldResolveIP :: bool
  ShouldFindProcess :: bool

record Proxy =
  Name :: string
  SupportUDP :: bool

type_synonym Proxies = "string \<rightharpoonup> Proxy"

text \<open>
  \<^verbatim>\<open>strconv.ParseUint(s, 10, 16)\<close>: a non-empty string of decimal digits whose value
  fits sixteen bits; anything else is an error.
\<close>

definition isDigit :: "char \<Rightarrow> bool" where
  "isDigit c = (c \<in> set ''0123456789'')"

definition digitVal :: "char \<Rightarrow> nat" where
  "digitVal c = of_char c - 48"

definition parseUint16 :: "string \<Rightarrow> nat option" where
  "parseUint16 s =
     (if s = [] \<or> \<not> list_all isDigit s then None
      else (let n = foldl (\<lambda>a c. 10 * a + digitVal c) 0 s in
            if n > 65535 then None else Some n))"

text \<open>\<^verbatim>\<open>filepath.Base\<close> with the separator \<^verbatim>\<open>/\<close>.\<close>

definition Base :: "string \<Rightarrow> string" where
  "Base path =
     (if path = [] then ''.''
      else (let p = rev (dropWhile (\<lambda>c. c = CHR ''/'') (rev path));
                b = rev (takeWhile (\<lambda>c. c \<noteq> CHR ''/'') (rev p))
            in if b = [] then ''/'' else b))"

text \<open>
  The calls \<^verbatim>\<open>match\<close> makes to its collaborators are recorded, in order, so that their
  number can be stated.
\<close>

datatype Event = EvResolveIP string | EvFindProcess NetWork Addr nat



text \<open>The local variables of \<^verbatim>\<open>match\<close>, the metadata it mutates, and the calls so far.\<close>

record PassState =
  resolved :: bool
  processFound :: bool
  meta :: Metadata
  events :: "Event list"

definition shouldResolveIP :: "Rule \<Rightarrow> Metadata \<Rightarrow> bool" where
  "shouldResolveIP rule md = (ShouldResolveIP rule \<and> Host md \<noteq> [] \<and> \<not> IsValid (DstIP md))"

text \<open>The first \<^verbatim>\<open>if\<close> of the loop body: rule-triggered resolution.\<close>

definition stepResolve :: "Env \<Rightarrow> Rule \<Rightarrow> PassState \<Rightarrow> PassState" where
  "stepResolve e rule s =
     (if \<not> resolved s \<and> shouldResolveIP rule (meta s) then
        (case resolverResolveIP e (Host (meta s)) of
           Inl err \<Rightarrow>
             s\<lparr>resolved := True, events := events s @ [EvResolveIP (Host (meta s))]\<rparr>
         | Inr ip \<Rightarrow>
             s\<lparr>resolved := True, meta := (meta s)\<lparr>DstIP := ip\<rparr>,
               events := events s @ [EvResolveIP (Host (meta s))]\<rparr>)
      else s)"

text \<open>The second \<^verbatim>\<open>if\<close> of the loop body: the process lookup.\<close>

definition stepProcess :: "Env \<Rightarrow> Rule \<Rightarrow> PassState \<Rightarrow> PassState" where
  "stepProcess e rule s =
     (if \<not> processFound s \<and> ShouldFindProcess rule then
        (let s1 = s\<lparr>processFound := True\<rparr> in
         case parseUint16 (SrcPort (meta s)) of
           None \<Rightarrow> s1
         | Some srcPort \<Rightarrow>
             (let ev = EvFindProcess (NetWork (meta s)) (SrcIP (meta s)) srcPort in
              case findProcessName e (NetWork (meta s)) (SrcIP (meta s)) srcPort of
                Inl err \<Rightarrow> s1\<lparr>events := events s @ [ev]\<rparr>
              | Inr path \<Rightarrow>
                  s1\<lparr>meta := (meta s)\<lparr>Process := Base path, ProcessPath := path\<rparr>,
                     events := events s @ [ev]\<rparr>))
      else s)"

definition prepare :: "Env \<Rightarrow> Rule \<Rightarrow> PassState \<Rightarrow> PassState" where
  "prepare e rule s = stepProcess e rule (stepResolve e rule s)"

text \<open>
  The loop over the rules. The result is the triple the source returns (a nil proxy or
  rule is \<open>None\<close>), with the final state.
\<close>

type_synonym MatchResult = "Proxy option \<times> Rule option \<times> error option"

fun matchLoop :: "Env \<Rightarrow> Proxies \<Rightarrow> PassState \<Rightarrow> Rule list \<Rightarrow> MatchResult \<times> PassState" where
  "matchLoop e proxies s [] = ((proxies ''REJECT'', None, None), s)"
| "matchLoop e proxies s (rule # rest) =
     (let s' = prepare e rule s in
      if Match rule (meta s') then
        (case proxies (Adapter rule) of
           None \<Rightarrow> matchLoop e proxies s' rest
         | Some adapter \<Rightarrow>
             if NetWork (meta s') = UDP \<and> \<not> SupportUDP adapter
             then matchLoop e proxies s' rest
             else ((Some adapter, Some rule, None), s'))
      else matchLoop e proxies s' rest)"

text \<open>The state before the loop: the static hosts table is consulted once.\<close>

definition initState :: "Env \<Rightarrow> Metadata \<Rightarrow> PassState" where
  "initState e md =
     (case defaultHosts e (Host md) of
        Some ip \<Rightarrow> \<lparr>resolved = True, processFound = False, meta = md\<lparr>DstIP := ip\<rparr>, events = []\<rparr>
      | None \<Rightarrow> \<lparr>resolved = False, processFound = False, meta = md, events = []\<rparr>)"

definition match :: "Env \<Rightarrow> Proxies \<Rightarrow> Rule list \<Rightarrow> Metadata \<Rightarrow> MatchResult \<times> PassState" where
  "match e proxies rules md = matchLoop e proxies (initState e md) rules"


section \<open>DNS messages\<close>

text \<open>
  What the resolver reads and writes of a \<^verbatim>\<open>dns.Msg\<close>: the identifier, the response
  code, the question section and the three record sections. Of a record, its header's
  name and TTL, and the address of an A or AAAA record (as \<^verbatim>\<open>nnip.IpToAddr\<close> gives it).
\<close>

record Question =
  Qname :: string
  Qtype :: "16 word"
  Qclass :: "16 word"

datatype RData = RR_A Addr | RR_AAAA Addr | RR_Other

record RR =
  RRName :: string
  Ttl :: "32 word"
  Body :: RData

record Msg =
  MsgId :: "16 word"
  Rcode :: int
  Questions :: "Question list"
  Answer :: "RR list"
  Ns :: "RR list"
  Extra :: "RR list"

definition TypeA :: "16 word" where "TypeA = 1"
definition TypeAAAA :: "16 word" where "TypeAAAA = 28"
definition ClassINET :: "16 word" where "ClassINET = 1"
definition RcodeServerFailure :: int where "RcodeServerFailure = 2"
definition RcodeRefused :: int where "RcodeRefused = 5"

definition isIPRequest :: "Question \<Rightarrow> bool" where
  "isIPRequest q = (Qclass q = ClassINET \<and> (Qtype q = TypeA \<or> Qtype q = TypeAAAA))"

fun rrToIP :: "RR \<Rightarrow> Addr list" where
  "rrToIP rr = (case Body rr of RR_AAAA a \<Rightarrow> [a] | RR_A a \<Rightarrow> [a] | RR_Other \<Rightarrow> [])"

definition msgToIP :: "Msg \<Rightarrow> Addr list" where
  "msgToIP msg = concat (map rrToIP (Answer msg))"

text \<open>\<^verbatim>\<open>strings.TrimRight(name, ".")\<close> of the first question's name.\<close>

definition msgToDomain :: "Msg \<Rightarrow> string" where
  "msgToDomain msg =
     (case Questions msg of
        [] \<Rightarrow> []
      | q # _ \<Rightarrow> rev (dropWhile (\<lambda>c. c = CHR ''.'') (rev (Qname q))))"

section \<open>The store of message objects\<close>

text \<open>
  A \<^verbatim>\<open>*dns.Msg\<close> is a reference into a store of message objects; \<open>nxt\<close> is the next
  unused reference. \<^verbatim>\<open>Msg.Copy\<close> of the DNS library is a deep copy: a new object with the
  same contents, records included.
\<close>

type_synonym ref = nat

record Store =
  cells :: "ref \<Rightarrow> Msg"
  nxt :: ref

definition alloc :: "Msg \<Rightarrow> 'a Store_scheme \<Rightarrow> ref \<times> 'a Store_scheme" where
  "alloc msg st = (nxt st, st\<lparr>cells := (cells st)(nxt st := msg), nxt := Suc (nxt st)\<rparr>)"

definition Copy :: "ref \<Rightarrow> 'a Store_scheme \<Rightarrow> ref \<times> 'a Store_scheme" where
  "Copy a st = alloc (cells st a) st"

text \<open>Times are nanoseconds since the epoch, durations nanoseconds.\<close>

type_synonym time = int

definition Second :: int where
  "Second = 1000000000"

text \<open>
  Modelled from the spec: the cache (\<^verbatim>\<open>cache.LruCache\<close>, built with stale return
  switched on) is a table from the question to the stored message and its absolute
  expiry, held in the resolver's state beside the store. \<^verbatim>\<open>GetWithExpire\<close> is the
  lookup, which returns an entry also after its expiry; \<^verbatim>\<open>SetWithExpire\<close> is the update.
  The question stands for the key \<^verbatim>\<open>q.String()\<close>, which renders its name, class and
  type. Eviction by size is not modelled.
\<close>

record RState = Store +
  lruCache :: "Question \<rightharpoonup> ref \<times> time"

section \<open>Cache writes and TTL rewriting (\<^verbatim>\<open>dns/util.go\<close>)\<close>

text \<open>The \<^verbatim>\<open>switch\<close> of \<^verbatim>\<open>putMsgToCache\<close>; \<open>None\<close> is its default branch.\<close>

definition cacheTTL :: "Msg \<Rightarrow> 32 word option" where
  "cacheTTL msg =
     (case Answer msg of
        rr # _ \<Rightarrow> Some (Ttl rr)
      | [] \<Rightarrow>
          (case Ns msg of
             rr # _ \<Rightarrow> Some (Ttl rr)
           | [] \<Rightarrow>
               (case Extra msg of
                  rr # _ \<Rightarrow> Some (Ttl rr)
                | [] \<Rightarrow> None)))"

text \<open>\<open>now\<close> is the value of \<^verbatim>\<open>time.Now()\<close> at the write.\<close>

definition putMsgToCache :: "Question \<Rightarrow> ref \<Rightarrow> time \<Rightarrow> RState \<Rightarrow> RState" where
  "putMsgToCache key a now st =
     (case cacheTTL (cells st a) of
        None \<Rightarrow> st
      | Some ttl \<Rightarrow>
          (let (c, st1) = Copy a st in
           st1\<lparr>lruCache := (lruCache st1)(key \<mapsto> (c, now + Second * int (unat ttl)))\<rparr>))"

definition setTTL :: "32 word \<Rightarrow> Msg \<Rightarrow> Msg" where
  "setTTL ttl msg =
     msg\<lparr>Answer := map (\<lambda>rr. rr\<lparr>Ttl := ttl\<rparr>) (Answer msg),
         Ns := map (\<lambda>rr. rr\<lparr>Ttl := ttl\<rparr>) (Ns msg),
         Extra := map (\<lambda>rr. rr\<lparr>Ttl := ttl\<rparr>) (Extra msg)\<rparr>"

definition setMsgTTL :: "ref \<Rightarrow> 32 word \<Rightarrow> RState \<Rightarrow> RState" where
  "setMsgTTL a ttl st = st\<lparr>cells := (cells st)(a := setTTL ttl (cells st a))\<rparr>"

section \<open>The resolver (\<^verbatim>\<open>Resolver\<close>)\<close>

text \<open>
  A transport (\<^verbatim>\<open>dnsClient\<close>) is what its \<^verbatim>\<open>ExchangeContext\<close> answers to a query in the run
  at hand. A nil slice or nil trie is \<open>None\<close>. A filter is its \<^verbatim>\<open>Match\<close> method; a policy
  trie is its \<^verbatim>\<open>Search\<close> followed by \<^verbatim>\<open>GetData\<close>.
\<close>

type_synonym dnsClient = "Msg \<Rightarrow> error + Msg"

record Resolver =
  main :: "dnsClient list"
  fallback :: "dnsClient list option"
  fallbackDomainFilters :: "(string \<Rightarrow> bool) list"
  fallbackIPFilters :: "(Addr \<Rightarrow> bool) list"
  policy :: "(string \<Rightarrow> dnsClient list option) option"

definition shouldIPFallback :: "Resolver \<Rightarrow> Addr \<Rightarrow> bool" where
  "shouldIPFallback r ip = list_ex (\<lambda>f. f ip) (fallbackIPFilters r)"

text \<open>The function each transport of a group runs under the picker.\<close>

definition clientResult :: "dnsClient \<Rightarrow> Msg \<Rightarrow> error + Msg" where
  "clientResult c m =
     (case c m of
        Inl err \<Rightarrow> Inl err
      | Inr resp \<Rightarrow>
          if Rcode resp = RcodeServerFailure \<or> Rcode resp = RcodeRefused
          then Inl ErrServerFailure
          else Inr resp)"

fun firstSuccess :: "(error + Msg) list \<Rightarrow> Msg option" where
  "firstSuccess [] = None"
| "firstSuccess (Inr msg # rest) = Some msg"
| "firstSuccess (Inl err # rest) = firstSuccess rest"

fun firstError :: "(error + Msg) list \<Rightarrow> error option" where
  "firstError [] = None"
| "firstError (Inl err # rest) = Some err"
| "firstError (Inr msg # rest) = firstError rest"

text \<open>
  Modelled from the spec: the picker (\<^verbatim>\<open>picker.WithTimeout\<close>) runs the transports of a
  group concurrently; \<^verbatim>\<open>Wait\<close> yields the first success, and \<^verbatim>\<open>Error\<close> the first error
  seen. The list of clients is taken in the order in which they complete; a transport
  that does not answer within the timeout counts as one that fails.
\<close>

definition batchExchange :: "dnsClient list \<Rightarrow> Msg \<Rightarrow> error + Msg" where
  "batchExchange clients m =
     (let results = map (\<lambda>c. clientResult c m) clients in
      case firstSuccess results of
        None \<Rightarrow> Inl (ErrAllFailed (firstError results))
      | Some msg \<Rightarrow> Inr msg)"

definition matchPolicy :: "Resolver \<Rightarrow> Msg \<Rightarrow> dnsClient list" where
  "matchPolicy r m =
     (case policy r of
        None \<Rightarrow> []
      | Some search \<Rightarrow>
          (let domain = msgToDomain m in
           if domain = [] then []
           else (case search domain of None \<Rightarrow> [] | Some clients \<Rightarrow> clients)))"

definition shouldOnlyQueryFallback :: "Resolver \<Rightarrow> Msg \<Rightarrow> bool" where
  "shouldOnlyQueryFallback r m =
     (if fallback r = None \<or> fallbackDomainFilters r = [] then False
      else (let domain = msgToDomain m in
            if domain = [] then False
            else list_ex (\<lambda>df. df domain) (fallbackDomainFilters r)))"

text \<open>
  The groups whose answer the caller waits for are recorded, in order. A nil
  \<^verbatim>\<open>r.fallback\<close> ranges over no transport.
\<close>

datatype Group = GPolicy | GMain | GFallback

definition fallbackClients :: "Resolver \<Rightarrow> dnsClient list" where
  "fallbackClients r = (case fallback r of None \<Rightarrow> [] | Some cs \<Rightarrow> cs)"

definition ipExchange :: "Resolver \<Rightarrow> Msg \<Rightarrow> Group list \<times> (error + Msg)" where
  "ipExchange r m =
     (let matched = matchPolicy r m in
      if matched \<noteq> [] then ([GPolicy], batchExchange matched m)
      else if shouldOnlyQueryFallback r m
      then ([GFallback], batchExchange (fallbackClients r) m)
      else
        (let res = batchExchange (main r) m;
             viaFallback = ([GMain, GFallback], batchExchange (fallbackClients r) m)
         in if fallbackClients r = [] then ([GMain], res)
            else (case res of
                    Inl err \<Rightarrow> viaFallback
                  | Inr msg \<Rightarrow>
                      (case msgToIP msg of
                         [] \<Rightarrow> viaFallback
                       | ip # _ \<Rightarrow>
                           if \<not> shouldIPFallback r ip then ([GMain], res)
                           else viaFallback))))"

text \<open>
  The function handed to \<^verbatim>\<open>group.Do\<close> in \<^verbatim>\<open>exchangeWithoutCache\<close>, run once for all the
  callers it serves: the upstream exchange, and on success the deferred cache write.
  The message a transport returns is a new object.
\<close>

definition upstream :: "Resolver \<Rightarrow> Question \<Rightarrow> Msg \<Rightarrow> Group list \<times> (error + Msg)" where
  "upstream r q m =
     (if isIPRequest q then ipExchange r m
      else (let matched = matchPolicy r m in
            if matched \<noteq> [] then ([GPolicy], batchExchange matched m)
            else ([GMain], batchExchange (main r) m)))"

definition flight ::
  "Resolver \<Rightarrow> time \<Rightarrow> Question \<Rightarrow> Msg \<Rightarrow> RState \<Rightarrow> (Group list \<times> (error + ref)) \<times> RState" where
  "flight r now q m st =
     (case upstream r q m of
        (waited, Inl err) \<Rightarrow> ((waited, Inl err), st)
      | (waited, Inr msg) \<Rightarrow>
          (let (a, st1) = alloc msg st in
           ((waited, Inr a), putMsgToCache q a now st1)))"

text \<open>
  What a caller of \<^verbatim>\<open>group.Do\<close> does with the value it is handed: \<open>shared\<close> is the flag
  \<^verbatim>\<open>Do\<close> returns, true when the value went to more than one caller.
\<close>

definition deliver :: "bool \<Rightarrow> error + ref \<Rightarrow> RState \<Rightarrow> (error + ref) \<times> RState" where
  "deliver shared ret st =
     (case ret of
        Inl err \<Rightarrow> (Inl err, st)
      | Inr a \<Rightarrow> if shared then (let (c, st1) = Copy a st in (Inr c, st1)) else (Inr a, st))"

text \<open>
  The outcome of an exchange for its caller: the result, the groups whose answer the
  caller waited for, the queries handed to a background goroutine, and the state.
\<close>

record Outcome =
  result :: "error + ref"
  waited :: "Group list"
  spawned :: "Msg list"
  after :: RState

text \<open>The caller that runs the function of \<^verbatim>\<open>group.Do\<close> itself.\<close>

definition exchangeWithoutCache :: "Resolver \<Rightarrow> time \<Rightarrow> bool \<Rightarrow> Msg \<Rightarrow> RState \<Rightarrow> Outcome" where
  "exchangeWithoutCache r now shared m st =
     (case Questions m of
        [] \<Rightarrow> \<lparr>result = Inl (Panic ''index out of range''), waited = [], spawned = [], after = st\<rparr>
      | q # _ \<Rightarrow>
          (let ((w, ret), st1) = flight r now q m st;
               (res, st2) = deliver shared ret st1
           in \<lparr>result = res, waited = w, spawned = [], after = st2\<rparr>))"

text \<open>
  \<open>now\<close> is the clock at \<^verbatim>\<open>time.Now()\<close>, \<open>now'\<close> the clock when \<^verbatim>\<open>time.Until\<close> reads it
  again. \<^verbatim>\<open>Duration.Seconds\<close> is a floating-point number of seconds and the conversion to
  \<^verbatim>\<open>uint32\<close> drops its fraction: the model takes the whole seconds of the duration.
  \<open>shared\<close> is the flag \<^verbatim>\<open>group.Do\<close> returns to this caller.
\<close>

definition ExchangeContext ::
  "Resolver \<Rightarrow> time \<Rightarrow> time \<Rightarrow> bool \<Rightarrow> Msg \<Rightarrow> RState \<Rightarrow> Outcome" where
  "ExchangeContext r now now' shared m st =
     (case Questions m of
        [] \<Rightarrow> \<lparr>result = Inl ErrNoQuestion, waited = [], spawned = [], after = st\<rparr>
      | q # _ \<Rightarrow>
          (case lruCache st q of
             Some (cacheM, expireTime) \<Rightarrow>
               (let (msg, st1) = Copy cacheM st in
                if expireTime < now
                then \<lparr>result = Inr msg, waited = [], spawned = [m], after = setMsgTTL msg 1 st1\<rparr>
                else \<lparr>result = Inr msg, waited = [], spawned = [],
                       after = setMsgTTL msg (word_of_int ((expireTime - now') div Second)) st1\<rparr>)
           | None \<Rightarrow> exchangeWithoutCache r now shared m st))"

text \<open>
  The callers that join a call of \<^verbatim>\<open>group.Do\<close> already in flight are handed the same
  value, with \<open>shared\<close> true; each then runs the rest of \<^verbatim>\<open>exchangeWithoutCache\<close>.
\<close>

fun deliverAll :: "nat \<Rightarrow> error + ref \<Rightarrow> RState \<Rightarrow> (error + ref) list \<times> RState" where
  "deliverAll 0 ret st = ([], st)"
| "deliverAll (Suc n) ret st =
     (let (res, st1) = deliver True ret st;
          (rest, st2) = deliverAll n ret st1
      in (res # rest, st2))"

text \<open>
  One call in flight shared by the caller that runs it and \<open>joiners\<close> further callers
  of \<^verbatim>\<open>exchangeWithoutCache\<close> with the same question: every caller's result, and the state
  when all have returned.
\<close>

definition coalesced ::
  "Resolver \<Rightarrow> time \<Rightarrow> nat \<Rightarrow> Msg \<Rightarrow> RState \<Rightarrow> (error + ref) list \<times> RState" where
  "coalesced r now joiners m st =
     (case Questions m of
        [] \<Rightarrow> (replicate (Suc joiners) (Inl (Panic ''index out of range'')), st)
      | q # _ \<Rightarrow>
          (let ((w, ret), st1) = flight r now q m st in
           deliverAll (Suc joiners) ret st1))"

section \<open>Dual-stack resolution (\<^verbatim>\<open>Resolver.ResolveIP\<close>)\<close>







section \<open>The DoH transport (\<^verbatim>\<open>dohClient\<close>)\<close>







section \<open>Definitions used to state the properties\<close>

subsection \<open>Rule matching\<close>

text \<open>
  Each rule of the list paired with the metadata it is evaluated against, were the loop
  to run over the whole list: the loop body prepares the metadata for a rule, then asks
  the rule.
\<close>

fun prepared :: "Env \<Rightarrow> PassState \<Rightarrow> Rule list \<Rightarrow> (Rule \<times> Metadata) list" where
  "prepared e s [] = []"
| "prepared e s (rule # rest) =
     (let s' = prepare e rule s in (rule, meta s') # prepared e s' rest)"

text \<open>
  A rule yields a usable outbound: it matches, its outbound is in the proxy set, and
  the outbound supports UDP when the flow is UDP.
\<close>

definition usable :: "Proxies \<Rightarrow> Rule \<times> Metadata \<Rightarrow> bool" where
  "usable proxies = (\<lambda>(rule, md). Match rule md \<and>
     (case proxies (Adapter rule) of
        None \<Rightarrow> False
      | Some adapter \<Rightarrow> NetWork md = UDP \<longrightarrow> SupportUDP adapter))"

text \<open>The dispatch as the specification words it: the first usable rule wins.\<close>

definition dispatch_spec :: "Env \<Rightarrow> Proxies \<Rightarrow> Rule list \<Rightarrow> Metadata \<Rightarrow> MatchResult" where
  "dispatch_spec e proxies rules md =
     (case find (usable proxies) (prepared e (initState e md) rules) of
        None \<Rightarrow> (proxies ''REJECT'', None, None)
      | Some (rule, _) \<Rightarrow> (proxies (Adapter rule), Some rule, None))"

text \<open>The state of the pass once the loop body has prepared the rules \<open>rs\<close>.\<close>

definition run :: "Env \<Rightarrow> PassState \<Rightarrow> Rule list \<Rightarrow> PassState" where
  "run e s rs = foldl (\<lambda>s r. prepare e r s) s rs"





subsection \<open>The cache\<close>

text \<open>The first non-empty section among answer, authority and additional.\<close>

definition firstSection :: "Msg \<Rightarrow> RR list" where
  "firstSection msg =
     (if Answer msg \<noteq> [] then Answer msg else if Ns msg \<noteq> [] then Ns msg else Extra msg)"

text \<open>The minimum TTL of that section, as the specification words the expiry.\<close>

definition sectionMinTTL :: "Msg \<Rightarrow> 32 word option" where
  "sectionMinTTL msg =
     (case firstSection msg of
        [] \<Rightarrow> None
      | rr # rest \<Rightarrow> Some (fold min (map Ttl rest) (Ttl rr)))"

text \<open>
  Every message the cache holds is an allocated object; \<open>cached st a\<close> says that the
  cache holds the object \<open>a\<close>.
\<close>

definition cacheOk :: "RState \<Rightarrow> bool" where
  "cacheOk st = (\<forall>q a t. lruCache st q = Some (a, t) \<longrightarrow> a < nxt st)"

definition cached :: "RState \<Rightarrow> ref \<Rightarrow> bool" where
  "cached st a = (\<exists>q t. lruCache st q = Some (a, t))"

section \<open>Concrete inputs\<close>

definition envW :: Env where
  "envW =
     \<lparr>parseAddr = (\<lambda>h. if h = ''198.18.0.5'' then Some (IPv4 0xC6120005) else None),
      mappingEnabled = True,
      fakeIPEnabled = True,
      findHostByIP = (\<lambda>a. None),
      isFakeIP = (\<lambda>a. a = Some (IPv4 0xC6120005)),
      defaultHosts = (\<lambda>h. None),
      resolverResolveIP = (\<lambda>h. if h = ''example.com'' then Inr (Some (IPv4 0x5DB8D822))
                            else Inl ErrIPNotFound),
      findProcessName = (\<lambda>n a p. if p = 50000 then Inr ''/usr/bin/curl''
                                  else Inl (ErrExternal ''not found''))\<rparr>"

definition mdExample :: Metadata where
  "mdExample =
     \<lparr>NetWork = TCP, SrcIP = Some (IPv4 0x0A000001), DstIP = None, SrcPort = ''50000'',
      DstPort = ''443'', Host = ''example.com'', DNSMode = DNSNormal,
      Process = [], ProcessPath = []\<rparr>"

definition mdLiteral :: Metadata where
  "mdLiteral = mdExample\<lparr>Host := ''198.18.0.5''\<rparr>"

definition direct :: Proxy where
  "direct = \<lparr>Name = ''DIRECT'', SupportUDP = True\<rparr>"

definition reject :: Proxy where
  "reject = \<lparr>Name = ''REJECT'', SupportUDP = True\<rparr>"

definition tcpOnly :: Proxy where
  "tcpOnly = \<lparr>Name = ''P2'', SupportUDP = False\<rparr>"

definition proxiesW :: Proxies where
  "proxiesW = [''DIRECT'' \<mapsto> direct, ''REJECT'' \<mapsto> reject, ''P2'' \<mapsto> tcpOnly]"

definition ruleDomain :: Rule where
  "ruleDomain =
     \<lparr>Payload = ''example.com'', Match = (\<lambda>md. Host md = ''example.com''), Adapter = ''P1'',
      ShouldResolveIP = False, ShouldFindProcess = False\<rparr>"

definition ruleGeoIP :: Rule where
  "ruleGeoIP =
     \<lparr>Payload = ''CN'', Match = (\<lambda>md. DstIP md = Some (IPv4 0x01020304)), Adapter = ''DIRECT'',
      ShouldResolveIP = True, ShouldFindProcess = False\<rparr>"

definition ruleIPCIDR :: Rule where
  "ruleIPCIDR =
     \<lparr>Payload = ''93.184.216.34/32'', Match = (\<lambda>md. DstIP md = Some (IPv4 0x5DB8D822)),
      Adapter = ''P1'', ShouldResolveIP = True, ShouldFindProcess = False\<rparr>"

definition ruleProcess :: Rule where
  "ruleProcess =
     \<lparr>Payload = ''curl'', Match = (\<lambda>md. Process md = ''curl''), Adapter = ''DIRECT'',
      ShouldResolveIP = False, ShouldFindProcess = True\<rparr>"

definition ruleFinal :: Rule where
  "ruleFinal =
     \<lparr>Payload = [], Match = (\<lambda>md. True), Adapter = ''P2'',
      ShouldResolveIP = False, ShouldFindProcess = False\<rparr>"

definition rulesW :: "Rule list" where
  "rulesW = [ruleDomain, ruleGeoIP, ruleIPCIDR, ruleProcess, ruleFinal]"

definition qKey :: Question where
  "qKey = \<lparr>Qname = ''example.com.'', Qtype = TypeA, Qclass = ClassINET\<rparr>"

definition qExample :: Msg where
  "qExample = \<lparr>MsgId = 0x1234, Rcode = 0, Questions = [qKey], Answer = [], Ns = [], Extra = []\<rparr>"

definition rrA :: "32 word \<Rightarrow> 32 word \<Rightarrow> RR" where
  "rrA ip ttl = \<lparr>RRName = ''example.com.'', Ttl = ttl, Body = RR_A (Some (IPv4 ip))\<rparr>"

definition answerOf :: "RR list \<Rightarrow> Msg" where
  "answerOf rrs = qExample\<lparr>Answer := rrs\<rparr>"

definition ipFilter :: "Addr \<Rightarrow> bool" where
  "ipFilter a = (a = Some (IPv4 0x01020304))"

text \<open>The main transport returns a flagged address, the fallback transport another.\<close>

definition rPolluted :: Resolver where
  "rPolluted =
     \<lparr>main = [\<lambda>m. Inr (answerOf [rrA 0x01020304 60])],
      fallback = Some [\<lambda>m. Inr (answerOf [rrA 0x08080808 60])],
      fallbackDomainFilters = [], fallbackIPFilters = [ipFilter], policy = None\<rparr>"

text \<open>The main transport fails; the main transport answers without an address.\<close>

definition rMainFails :: Resolver where
  "rMainFails = rPolluted\<lparr>main := [\<lambda>m. Inl (ErrExternal ''i/o timeout'')]\<rparr>"

definition rNoAddress :: Resolver where
  "rNoAddress = rPolluted\<lparr>main := [\<lambda>m. Inr (answerOf [])]\<rparr>"

text \<open>The main transport answers with two records of TTL 300 and 60; no fallback.\<close>

definition rTwoTTLs :: Resolver where
  "rTwoTTLs =
     \<lparr>main = [\<lambda>m. Inr (answerOf [rrA 0x5DB8D822 300, rrA 0x5DB8D822 60])],
      fallback = None, fallbackDomainFilters = [], fallbackIPFilters = [], policy = None\<rparr>"

definition emptyMsg :: Msg where
  "emptyMsg = \<lparr>MsgId = 0, Rcode = 0, Questions = [], Answer = [], Ns = [], Extra = []\<rparr>"

definition stEmpty :: RState where
  "stEmpty = \<lparr>cells = (\<lambda>a. emptyMsg), nxt = 0, lruCache = Map.empty\<rparr>"

text \<open>A cache that holds one answer for the example question, expiring at second 100.\<close>

definition stCached :: RState where
  "stCached =
     \<lparr>cells = (\<lambda>a. emptyMsg)(0 := answerOf [rrA 0x5DB8D822 300, rrA 0x5DB8D822 60]),
      nxt = 1, lruCache = [qKey \<mapsto> (0, 100 * Second)]\<rparr>"




section \<open>Properties of the metadata preprocessing\<close>

text \<open>
  Claim C6. \<^verbatim>\<open>preHandleMetadata\<close> first moves a host that parses as an IP literal into
  the destination IP and clears the host. On the metadata \<open>md1\<close> so obtained it returns
  an error exactly when the mapping is enabled, \<open>md1\<close> has a valid destination IP and an
  empty host, the reverse lookup of that IP finds no host, and the IP is a fake IP; the
  error is then the missing fake DNS record error. In every other case it returns no
  error. Whenever the reverse lookup is not made or finds no host, the metadata is left
  as \<open>md1\<close>.
\<close>

theorem preHandleMetadata_fails_iff:
  "(case parseAddr e (Host md) of
      Some ip \<Rightarrow> handleIPOnHost e md = md\<lparr>DstIP := Some ip, Host := []\<rparr>
    | None \<Rightarrow> handleIPOnHost e md = md) \<and>
   (let md1 = handleIPOnHost e md in
      (snd (preHandleMetadata e md) \<noteq> None) =
        (mappingEnabled e \<and> Host md1 = [] \<and> IsValid (DstIP md1) \<and>
         findHostByIP e (DstIP md1) = None \<and> isFakeIP e (DstIP md1)) \<and>
      (snd (preHandleMetadata e md) \<noteq> None \<longrightarrow>
         snd (preHandleMetadata e md) = Some (ErrFakeRecordMissing (DstIP md1))) \<and>
      (\<not> needLookupIP e md1 \<or> findHostByIP e (DstIP md1) = None \<longrightarrow>
         fst (preHandleMetadata e md) = md1))"
  by (auto simp: preHandleMetadata_def needLookupIP_def Let_def handleIPOnHost_def
      split: option.splits)

theorem preHandleMetadata_fails_iff_witness:
  "preHandleMetadata envW mdLiteral =
     (mdLiteral\<lparr>DstIP := Some (IPv4 0xC6120005), Host := []\<rparr>,
      Some (ErrFakeRecordMissing (Some (IPv4 0xC6120005)))) \<and>
   snd (preHandleMetadata envW mdExample) = None"
proof -
  have lit: "handleIPOnHost envW mdLiteral = mdLiteral\<lparr>DstIP := Some (IPv4 0xC6120005), Host := []\<rparr>"
    by (simp add: handleIPOnHost_def envW_def mdLiteral_def)
  have name: "handleIPOnHost envW mdExample = mdExample"
    by (simp add: handleIPOnHost_def envW_def mdExample_def)
  have missing: "findHostByIP envW (Some (IPv4 0xC6120005)) = None"
    by (simp add: envW_def)
  have fails: "snd (preHandleMetadata envW mdLiteral) \<noteq> None"
    using preHandleMetadata_fails_iff [of envW mdLiteral]
    by (simp add: lit Let_def IsValid_def) (simp add: envW_def)
  have ok: "snd (preHandleMetadata envW mdExample) = None"
    using preHandleMetadata_fails_iff [of envW mdExample]
    by (simp add: name Let_def) (simp add: mdExample_def)
  have "snd (preHandleMetadata envW mdLiteral) = Some (ErrFakeRecordMissing (Some (IPv4 0xC6120005)))"
    and "fst (preHandleMetadata envW mdLiteral) = mdLiteral\<lparr>DstIP := Some (IPv4 0xC6120005), Host := []\<rparr>"
    using preHandleMetadata_fails_iff [of envW mdLiteral] fails missing
    by (simp_all add: lit Let_def)
  with ok show ?thesis
    by (simp add: prod_eq_iff)
qed

section \<open>Properties of the rule matching\<close>

lemma matchLoop_find:
  "fst (matchLoop e proxies s rules) =
     (case find (usable proxies) (prepared e s rules) of
        None \<Rightarrow> (proxies ''REJECT'', None, None)
      | Some (rule, _) \<Rightarrow> (proxies (Adapter rule), Some rule, None))"
proof (induction rules arbitrary: s)
  case Nil
  show ?case by simp
next
  case (Cons rule rest)
  show ?case
    by (simp add: Let_def usable_def Cons.IH split: option.splits)
qed

text \<open>
  Claim C4. For every metadata and rule list, \<^verbatim>\<open>match\<close> returns what the
  specification's dispatch returns: the outbound and the rule of the first rule, in
  list order, that matches the metadata as prepared for it and whose outbound is in the
  proxy set and supports UDP when the flow is UDP. A matching rule whose outbound is
  missing or lacks UDP support for a UDP flow is passed over. When no rule is usable the
  result is the proxy set's entry \<^verbatim>\<open>REJECT\<close>, no rule and no error.
\<close>

theorem match_first_usable_rule:
  "fst (match e proxies rules md) = dispatch_spec e proxies rules md"
  by (simp add: match_def dispatch_spec_def matchLoop_find)

lemmas pass_defs =
  initState_def prepare_def stepResolve_def stepProcess_def shouldResolveIP_def IsValid_def
  parseUint16_def isDigit_def digitVal_def Base_def

lemmas input_defs =
  envW_def mdExample_def proxiesW_def direct_def reject_def tcpOnly_def
  ruleDomain_def ruleGeoIP_def ruleIPCIDR_def ruleProcess_def ruleFinal_def

theorem match_first_usable_rule_witness:
  "fst (match envW proxiesW rulesW mdExample) = (Some direct, Some ruleProcess, None) \<and>
   fst (match envW proxiesW [ruleDomain, ruleFinal] (mdExample\<lparr>NetWork := UDP\<rparr>)) =
     (Some reject, None, None)"
  using match_first_usable_rule [of envW proxiesW rulesW mdExample]
    match_first_usable_rule [of envW proxiesW "[ruleDomain, ruleFinal]" "mdExample\<lparr>NetWork := UDP\<rparr>"]
  by (simp add: dispatch_spec_def usable_def rulesW_def pass_defs input_defs)

lemma run_Nil [simp]: "run e s [] = s"
  by (simp add: run_def)

lemma run_Cons [simp]: "run e s (r # rs) = run e (prepare e r s) rs"
  by (simp add: run_def)




subsection \<open>One pass of the loop body\<close>












subsection \<open>A pass over a list of rules, in closed form\<close>











section \<open>Properties of the IP exchange\<close>

lemma shouldIPFallback_iff: "shouldIPFallback r ip = (\<exists>f \<in> set (fallbackIPFilters r). f ip)"
  by (simp add: shouldIPFallback_def list_ex_iff)

text \<open>
  Claim C1, as amended. For a question with no matching policy and no fallback-only
  domain filter, and a fallback group configured: when the main group's result is a
  response whose first resolved IP matches no fallback-IP filter, that response is
  returned and only the main group is waited for. In every other case (the main group
  fails, its response carries no address, or the first address matches a filter) the
  fallback group is queried and its result, response or error, is returned.
\<close>

theorem ipExchange_main_or_fallback:
  assumes "matchPolicy r m = []" and "\<not> shouldOnlyQueryFallback r m"
    and "fallbackClients r \<noteq> []"
  shows "ipExchange r m =
     (if (\<exists>msg ip ips. batchExchange (main r) m = Inr msg \<and> msgToIP msg = ip # ips \<and>
            \<not> (\<exists>f \<in> set (fallbackIPFilters r). f ip))
      then ([GMain], batchExchange (main r) m)
      else ([GMain, GFallback], batchExchange (fallbackClients r) m))"
  using assms
  by (auto simp: ipExchange_def Let_def shouldIPFallback_iff split: sum.splits list.splits)

lemmas dns_defs =
  matchPolicy_def shouldOnlyQueryFallback_def fallbackClients_def batchExchange_def
  clientResult_def msgToIP_def msgToDomain_def RcodeServerFailure_def RcodeRefused_def

lemmas dns_input_defs =
  rPolluted_def rMainFails_def rNoAddress_def rTwoTTLs_def qExample_def qKey_def answerOf_def rrA_def
  ipFilter_def

theorem ipExchange_main_or_fallback_witness:
  "ipExchange rPolluted qExample = ([GMain, GFallback], Inr (answerOf [rrA 0x08080808 60]))"
proof -
  have h1: "matchPolicy rPolluted qExample = []"
    by (simp add: dns_defs dns_input_defs)
  have h2: "\<not> shouldOnlyQueryFallback rPolluted qExample"
    by (simp add: dns_defs dns_input_defs)
  have h3: "fallbackClients rPolluted \<noteq> []"
    by (simp add: dns_defs dns_input_defs)
  show ?thesis
    using ipExchange_main_or_fallback [OF h1 h2 h3]
    by (simp add: dns_defs dns_input_defs)
qed

text \<open>
  The claim as first stated fails. Here the main group fails, and the call does not
  return that failure but waits for the fallback group and returns its response; and
  the same happens when the main group's response carries no address.
\<close>

theorem ipExchange_main_error_counterexample:
  "matchPolicy rMainFails qExample = [] \<and>
   \<not> shouldOnlyQueryFallback rMainFails qExample \<and>
   fallbackClients rMainFails \<noteq> [] \<and>
   batchExchange (main rMainFails) qExample =
     Inl (ErrAllFailed (Some (ErrExternal ''i/o timeout''))) \<and>
   ipExchange rMainFails qExample = ([GMain, GFallback], Inr (answerOf [rrA 0x08080808 60])) \<and>
   matchPolicy rNoAddress qExample = [] \<and>
   \<not> shouldOnlyQueryFallback rNoAddress qExample \<and>
   batchExchange (main rNoAddress) qExample = Inr (answerOf []) \<and>
   msgToIP (answerOf []) = [] \<and>
   ipExchange rNoAddress qExample = ([GMain, GFallback], Inr (answerOf [rrA 0x08080808 60]))"
  by (simp add: ipExchange_def shouldIPFallback_def dns_defs dns_input_defs)

section \<open>Properties of the cache\<close>

lemma cacheTTL_firstSection:
  "cacheTTL msg = (case firstSection msg of [] \<Rightarrow> None | rr # _ \<Rightarrow> Some (Ttl rr))"
  by (simp add: cacheTTL_def firstSection_def split: list.splits)

text \<open>
  Claim C2, as amended. When an exchange succeeds with the response \<open>msg\<close>, the
  function run by the exchange hands out the new object of that response, and: if the
  answer, authority and additional sections of \<open>msg\<close> are all empty the cache is left
  as it was; otherwise the cache is updated at the question alone, with a copy of the
  response, and the expiry is the write time plus the TTL of the first record of the
  first non-empty section.
\<close>

theorem flight_cache_write:
  assumes "upstream r q m = (w, Inr msg)"
  shows "fst (flight r now q m st) = (w, Inr (nxt st)) \<and>
     (case firstSection msg of
        [] \<Rightarrow> lruCache (snd (flight r now q m st)) = lruCache st
      | rr # _ \<Rightarrow>
          lruCache (snd (flight r now q m st)) =
            (lruCache st)(q \<mapsto> (Suc (nxt st), now + Second * int (unat (Ttl rr)))) \<and>
          cells (snd (flight r now q m st)) (Suc (nxt st)) = msg)"
  using assms
  by (auto simp: flight_def alloc_def putMsgToCache_def cacheTTL_firstSection Copy_def
      split: list.splits)

lemma upstream_rTwoTTLs:
  "upstream rTwoTTLs qKey qExample =
     ([GMain], Inr (answerOf [rrA 0x5DB8D822 300, rrA 0x5DB8D822 60]))"
  by (simp add: upstream_def ipExchange_def isIPRequest_def dns_defs dns_input_defs)

theorem flight_cache_write_witness:
  "lruCache (snd (flight rTwoTTLs 1000 qKey qExample stEmpty)) =
     [qKey \<mapsto> (1, 1000 + 300 * Second)]"
  using flight_cache_write [OF upstream_rTwoTTLs, of 1000 stEmpty]
  by (simp add: firstSection_def answerOf_def rrA_def stEmpty_def Second_def)

text \<open>
  The claim as first stated fails: the response holds TTLs 300 and 60, the minimum
  is 60, and the entry expires 300 seconds after the write.
\<close>

theorem cache_expiry_min_ttl_counterexample:
  "sectionMinTTL (answerOf [rrA 0x5DB8D822 300, rrA 0x5DB8D822 60]) = Some 60 \<and>
   fst (flight rTwoTTLs 1000 qKey qExample stEmpty) = ([GMain], Inr 0) \<and>
   lruCache (snd (flight rTwoTTLs 1000 qKey qExample stEmpty)) qKey =
     Some (1, 1000 + 300 * Second) \<and>
   1000 + 300 * Second \<noteq> 1000 + Second * int (unat (60 :: 32 word))"
  by (simp add: flight_def upstream_rTwoTTLs alloc_def putMsgToCache_def cacheTTL_def Copy_def
      sectionMinTTL_def firstSection_def answerOf_def rrA_def stEmpty_def Second_def)









section \<open>Properties of the store: no reference into the cache escapes\<close>

lemma putMsgToCache_cases:
  "putMsgToCache key a now st = st \<or>
   (\<exists>t. putMsgToCache key a now st =
      st\<lparr>cells := (cells st)(nxt st := cells st a), nxt := Suc (nxt st),
         lruCache := (lruCache st)(key \<mapsto> (nxt st, t))\<rparr>)"
proof (cases "cacheTTL (cells st a)")
  case None
  then show ?thesis by (simp add: putMsgToCache_def)
next
  case (Some ttl)
  then have "putMsgToCache key a now st =
      st\<lparr>cells := (cells st)(nxt st := cells st a), nxt := Suc (nxt st),
         lruCache := (lruCache st)(key \<mapsto> (nxt st, now + Second * int (unat ttl)))\<rparr>"
    by (simp add: putMsgToCache_def Copy_def alloc_def)
  then show ?thesis by blast
qed

lemma cacheOk_insert:
  assumes "cacheOk st"
  shows "cacheOk (st\<lparr>cells := cs, nxt := Suc (nxt st),
            lruCache := (lruCache st)(key \<mapsto> (nxt st, t))\<rparr>)"
  unfolding cacheOk_def
proof (intro allI impI)
  fix q a t'
  assume h: "lruCache (st\<lparr>cells := cs, nxt := Suc (nxt st),
            lruCache := (lruCache st)(key \<mapsto> (nxt st, t))\<rparr>) q = Some (a, t')"
  show "a < nxt (st\<lparr>cells := cs, nxt := Suc (nxt st),
            lruCache := (lruCache st)(key \<mapsto> (nxt st, t))\<rparr>)"
  proof (cases "q = key")
    case True
    with h show ?thesis by simp
  next
    case False
    with h have "lruCache st q = Some (a, t')" by simp
    with assms have "a < nxt st" unfolding cacheOk_def by blast
    then show ?thesis by simp
  qed
qed

lemma cacheOk_alloc: "cacheOk st \<Longrightarrow> cacheOk (snd (alloc msg st))"
  unfolding cacheOk_def alloc_def by (simp add: less_Suc_eq)

lemma cacheOk_fresh: "cacheOk st \<Longrightarrow> nxt st \<le> a \<Longrightarrow> \<not> cached st a"
  unfolding cacheOk_def cached_def by (metis leD)

lemma putMsgToCache_props:
  assumes "cacheOk st" and "a < nxt st" and "\<not> cached st a"
  shows "cacheOk (putMsgToCache key a now st)"
    and "\<not> cached (putMsgToCache key a now st) a"
    and "nxt st \<le> nxt (putMsgToCache key a now st)"
    and "\<forall>b < nxt st. cells (putMsgToCache key a now st) b = cells st b"
proof -
  consider (same) "putMsgToCache key a now st = st"
    | (ins) t where "putMsgToCache key a now st =
        st\<lparr>cells := (cells st)(nxt st := cells st a), nxt := Suc (nxt st),
           lruCache := (lruCache st)(key \<mapsto> (nxt st, t))\<rparr>"
    using putMsgToCache_cases by blast
  then have "cacheOk (putMsgToCache key a now st) \<and> \<not> cached (putMsgToCache key a now st) a \<and>
     nxt st \<le> nxt (putMsgToCache key a now st) \<and>
     (\<forall>b < nxt st. cells (putMsgToCache key a now st) b = cells st b)"
  proof cases
    case same
    with assms show ?thesis by simp
  next
    case ins
    have "\<not> cached (st\<lparr>cells := (cells st)(nxt st := cells st a), nxt := Suc (nxt st),
           lruCache := (lruCache st)(key \<mapsto> (nxt st, t))\<rparr>) a"
      using assms(2,3) unfolding cached_def by (auto split: if_splits)
    with ins cacheOk_insert [OF assms(1)] show ?thesis by simp
  qed
  then show "cacheOk (putMsgToCache key a now st)"
    and "\<not> cached (putMsgToCache key a now st) a"
    and "nxt st \<le> nxt (putMsgToCache key a now st)"
    and "\<forall>b < nxt st. cells (putMsgToCache key a now st) b = cells st b"
    by simp_all
qed


lemma cached_lruCache: "lruCache st' = lruCache st \<Longrightarrow> cached st' a = cached st a"
  by (simp add: cached_def)

lemma cacheOk_mono:
  "cacheOk st \<Longrightarrow> lruCache st' = lruCache st \<Longrightarrow> nxt st \<le> nxt st' \<Longrightarrow> cacheOk st'"
  unfolding cacheOk_def by (metis less_le_trans)

lemma cacheOk_cached_less: "cacheOk st \<Longrightarrow> cached st a \<Longrightarrow> a < nxt st"
  unfolding cacheOk_def cached_def by blast

lemma flight_props:
  assumes "cacheOk st"
  shows "cacheOk (snd (flight r now q m st)) \<and>
     nxt st \<le> nxt (snd (flight r now q m st)) \<and>
     (\<forall>b < nxt st. cells (snd (flight r now q m st)) b = cells st b) \<and>
     (\<forall>a. snd (fst (flight r now q m st)) = Inr a \<longrightarrow>
        a < nxt (snd (flight r now q m st)) \<and> \<not> cached (snd (flight r now q m st)) a)"
proof (cases "upstream r q m")
  case (Pair w res)
  show ?thesis
  proof (cases res)
    case (Inl e)
    with Pair assms show ?thesis by (simp add: flight_def)
  next
    case (Inr msg)
    define st1 where "st1 = snd (alloc msg st)"
    have fl: "flight r now q m st = ((w, Inr (nxt st)), putMsgToCache q (nxt st) now st1)"
      using Pair Inr by (simp add: flight_def alloc_def st1_def)
    have ok1: "cacheOk st1"
      using assms by (simp add: st1_def cacheOk_alloc)
    have lt1: "nxt st < nxt st1" and n1: "nxt st1 = Suc (nxt st)"
      by (simp_all add: st1_def alloc_def)
    have nc1: "\<not> cached st1 (nxt st)"
      using cacheOk_fresh [OF assms, of "nxt st"] by (simp add: cached_def st1_def alloc_def)
    have c1: "\<forall>b < nxt st. cells st1 b = cells st b"
      by (simp add: st1_def alloc_def)
    note P = putMsgToCache_props [OF ok1 lt1 nc1, of q now]
    have "cacheOk (putMsgToCache q (nxt st) now st1)" by (rule P(1))
    moreover have "nxt st \<le> nxt (putMsgToCache q (nxt st) now st1)"
      using P(3) n1 by simp
    moreover have "\<forall>b < nxt st. cells (putMsgToCache q (nxt st) now st1) b = cells st b"
      using P(4) c1 n1 by simp
    moreover have "nxt st < nxt (putMsgToCache q (nxt st) now st1)"
      using P(3) n1 by simp
    moreover have "\<not> cached (putMsgToCache q (nxt st) now st1) (nxt st)" by (rule P(2))
    ultimately show ?thesis by (simp add: fl)
  qed
qed

lemma flight_cache_refs:
  "lruCache (snd (flight r now q m st)) q' = Some (c, t) \<Longrightarrow>
     lruCache st q' = Some (c, t) \<or> (c = Suc (nxt st) \<and> snd (fst (flight r now q m st)) = Inr (nxt st))"
  by (auto simp: flight_def alloc_def putMsgToCache_def Copy_def
      split: prod.splits sum.splits option.splits if_splits)

lemma deliver_Inl [simp]: "deliver shared (Inl e) st = (Inl e, st)"
  by (simp add: deliver_def)

lemma deliver_own [simp]: "deliver False (Inr a) st = (Inr a, st)"
  by (simp add: deliver_def)

lemma deliver_shared:
  "deliver True (Inr a) st =
     (Inr (nxt st), st\<lparr>cells := (cells st)(nxt st := cells st a), nxt := Suc (nxt st)\<rparr>)"
  by (simp add: deliver_def Copy_def alloc_def)

lemma deliver_props:
  assumes "cacheOk st" and "\<forall>a. ret = Inr a \<longrightarrow> a < nxt st \<and> \<not> cached st a"
  shows "cacheOk (snd (deliver shared ret st)) \<and>
     lruCache (snd (deliver shared ret st)) = lruCache st \<and>
     nxt st \<le> nxt (snd (deliver shared ret st)) \<and>
     (\<forall>b < nxt st. cells (snd (deliver shared ret st)) b = cells st b) \<and>
     (\<forall>a. fst (deliver shared ret st) = Inr a \<longrightarrow>
        a < nxt (snd (deliver shared ret st)) \<and> \<not> cached (snd (deliver shared ret st)) a)"
proof (cases ret)
  case (Inl e)
  with assms show ?thesis by simp
next
  case (Inr a)
  show ?thesis
  proof (cases shared)
    case False
    with Inr assms show ?thesis by simp
  next
    case True
    define st1 where "st1 = st\<lparr>cells := (cells st)(nxt st := cells st a), nxt := Suc (nxt st)\<rparr>"
    have d: "deliver shared ret st = (Inr (nxt st), st1)"
      using True Inr by (simp add: deliver_shared st1_def)
    have l: "lruCache st1 = lruCache st" and n: "nxt st1 = Suc (nxt st)"
      by (simp_all add: st1_def)
    have ok: "cacheOk st1"
      using cacheOk_mono [OF assms(1) l] n by simp
    have nc: "\<not> cached st1 (nxt st)"
      using cacheOk_fresh [OF assms(1), of "nxt st"] cached_lruCache [OF l] by simp
    have c: "\<forall>b < nxt st. cells st1 b = cells st b"
      by (simp add: st1_def)
    show ?thesis using ok l n nc c by (simp add: d)
  qed
qed

lemma deliverAll_Inl: "deliverAll n (Inl e) st = (replicate n (Inl e), st)"
  by (induction n) simp_all

lemma deliverAll_Inr:
  "fst (deliverAll n (Inr a) st) = map (\<lambda>i. Inr (nxt st + i)) [0..<n] \<and>
   lruCache (snd (deliverAll n (Inr a) st)) = lruCache st \<and>
   nxt (snd (deliverAll n (Inr a) st)) = nxt st + n \<and>
   (\<forall>b < nxt st. cells (snd (deliverAll n (Inr a) st)) b = cells st b)"
proof (induction n arbitrary: st)
  case 0
  show ?case by simp
next
  case (Suc n)
  define st1 where "st1 = st\<lparr>cells := (cells st)(nxt st := cells st a), nxt := Suc (nxt st)\<rparr>"
  have step: "deliverAll (Suc n) (Inr a) st =
      (Inr (nxt st) # fst (deliverAll n (Inr a) st1), snd (deliverAll n (Inr a) st1))"
    by (simp add: deliver_shared st1_def split: prod.splits)
  have n1: "nxt st1 = Suc (nxt st)" and l1: "lruCache st1 = lruCache st"
    and c1: "\<forall>b < nxt st. cells st1 b = cells st b"
    by (simp_all add: st1_def)
  have m: "map (\<lambda>i. Inr (nxt st + i)) [0..<Suc n] =
      (Inr (nxt st) :: error + ref) # map (\<lambda>i. Inr (Suc (nxt st) + i)) [0..<n]"
    by (simp add: upt_conv_Cons map_Suc_upt [symmetric] del: upt_Suc)
  show ?case
    using Suc.IH [of st1] n1 l1 c1 unfolding step m by simp
qed


lemma exchangeWithoutCache_props:
  assumes "cacheOk st"
  shows "cacheOk (after (exchangeWithoutCache r now shared m st)) \<and>
     nxt st \<le> nxt (after (exchangeWithoutCache r now shared m st)) \<and>
     (\<forall>b < nxt st. cells (after (exchangeWithoutCache r now shared m st)) b = cells st b) \<and>
     (\<forall>a. result (exchangeWithoutCache r now shared m st) = Inr a \<longrightarrow>
        a < nxt (after (exchangeWithoutCache r now shared m st)) \<and>
        \<not> cached (after (exchangeWithoutCache r now shared m st)) a)"
proof (cases "Questions m")
  case Nil
  with assms show ?thesis by (simp add: exchangeWithoutCache_def)
next
  case (Cons q qs)
  define st1 where "st1 = snd (flight r now q m st)"
  define ret where "ret = snd (fst (flight r now q m st))"
  have ex: "exchangeWithoutCache r now shared m st =
      \<lparr>result = fst (deliver shared ret st1), waited = fst (fst (flight r now q m st)),
       spawned = [], after = snd (deliver shared ret st1)\<rparr>"
    using Cons by (simp add: exchangeWithoutCache_def st1_def ret_def split: prod.splits)
  have F: "cacheOk st1" "nxt st \<le> nxt st1" "\<forall>b < nxt st. cells st1 b = cells st b"
    "\<forall>a. ret = Inr a \<longrightarrow> a < nxt st1 \<and> \<not> cached st1 a"
    using flight_props [OF assms, of r now q m] by (simp_all add: st1_def ret_def)
  note D = deliver_props [OF F(1) F(4), of shared]
  have "nxt st \<le> nxt (snd (deliver shared ret st1))"
    using D F(2) by simp
  moreover have "\<forall>b < nxt st. cells (snd (deliver shared ret st1)) b = cells st b"
    using D F(2,3) by simp
  ultimately show ?thesis using D by (simp add: ex)
qed

lemma ExchangeContext_props:
  assumes "cacheOk st"
  shows "cacheOk (after (ExchangeContext r now now' shared m st)) \<and>
     (\<forall>b < nxt st. cells (after (ExchangeContext r now now' shared m st)) b = cells st b) \<and>
     (\<forall>a. result (ExchangeContext r now now' shared m st) = Inr a \<longrightarrow>
        a < nxt (after (ExchangeContext r now now' shared m st)) \<and>
        \<not> cached (after (ExchangeContext r now now' shared m st)) a)"
proof (cases "Questions m")
  case Nil
  with assms show ?thesis by (simp add: ExchangeContext_def)
next
  case (Cons q qs)
  show ?thesis
  proof (cases "lruCache st q")
    case None
    then have "ExchangeContext r now now' shared m st = exchangeWithoutCache r now shared m st"
      using Cons by (simp add: ExchangeContext_def)
    with exchangeWithoutCache_props [OF assms, of r now shared m] show ?thesis by simp
  next
    case (Some entry)
    obtain c expire where entry: "entry = (c, expire)" by (cases entry)
    define ttl :: "32 word" where
      "ttl = (if expire < now then 1 else word_of_int ((expire - now') div Second))"
    define st1 where "st1 = setMsgTTL (nxt st) ttl (snd (Copy c st))"
    have out: "ExchangeContext r now now' shared m st =
        \<lparr>result = Inr (nxt st), waited = [], spawned = (if expire < now then [m] else []),
         after = st1\<rparr>"
      using Cons Some entry by (simp add: ExchangeContext_def Copy_def alloc_def ttl_def st1_def)
    have l: "lruCache st1 = lruCache st" and n: "nxt st1 = Suc (nxt st)"
      and c: "\<forall>b < nxt st. cells st1 b = cells st b"
      by (simp_all add: st1_def setMsgTTL_def Copy_def alloc_def)
    have ok: "cacheOk st1"
      using cacheOk_mono [OF assms l] n by simp
    have nc: "\<not> cached st1 (nxt st)"
      using cacheOk_fresh [OF assms, of "nxt st"] cached_lruCache [OF l] by simp
    show ?thesis using ok c nc n by (simp add: out)
  qed
qed

lemma flight_deliverAll_props:
  assumes "cacheOk st"
  shows "cacheOk (snd (deliverAll (Suc joiners) (snd (fst (flight r now q m st))) (snd (flight r now q m st)))) \<and>
     length (fst (deliverAll (Suc joiners) (snd (fst (flight r now q m st))) (snd (flight r now q m st)))) = Suc joiners \<and>
     (\<forall>b < nxt st. cells (snd (deliverAll (Suc joiners) (snd (fst (flight r now q m st))) (snd (flight r now q m st)))) b = cells st b) \<and>
     (\<forall>i < Suc joiners. \<forall>a. fst (deliverAll (Suc joiners) (snd (fst (flight r now q m st))) (snd (flight r now q m st))) ! i = Inr a \<longrightarrow>
        a < nxt (snd (deliverAll (Suc joiners) (snd (fst (flight r now q m st))) (snd (flight r now q m st)))) \<and>
        \<not> cached (snd (deliverAll (Suc joiners) (snd (fst (flight r now q m st))) (snd (flight r now q m st)))) a \<and>
        (\<forall>j < Suc joiners. j \<noteq> i \<longrightarrow>
           fst (deliverAll (Suc joiners) (snd (fst (flight r now q m st))) (snd (flight r now q m st))) ! j \<noteq> Inr a))"
proof -
  define st1 where "st1 = snd (flight r now q m st)"
  define ret where "ret = snd (fst (flight r now q m st))"
  have F: "cacheOk st1" "nxt st \<le> nxt st1" "\<forall>b < nxt st. cells st1 b = cells st b"
    using flight_props [OF assms, of r now q m] by (simp_all add: st1_def)
  show ?thesis
    unfolding st1_def [symmetric] ret_def [symmetric]
  proof (cases ret)
    case (Inl e)
    have "deliverAll (Suc joiners) (Inl e) st1 = (replicate (Suc joiners) (Inl e), st1)"
      by (simp only: deliverAll_Inl)
    with F show "cacheOk (snd (deliverAll (Suc joiners) ret st1)) \<and>
     length (fst (deliverAll (Suc joiners) ret st1)) = Suc joiners \<and>
     (\<forall>b < nxt st. cells (snd (deliverAll (Suc joiners) ret st1)) b = cells st b) \<and>
     (\<forall>i < Suc joiners. \<forall>a. fst (deliverAll (Suc joiners) ret st1) ! i = Inr a \<longrightarrow>
        a < nxt (snd (deliverAll (Suc joiners) ret st1)) \<and>
        \<not> cached (snd (deliverAll (Suc joiners) ret st1)) a \<and>
        (\<forall>j < Suc joiners. j \<noteq> i \<longrightarrow> fst (deliverAll (Suc joiners) ret st1) ! j \<noteq> Inr a))"
      unfolding Inl by (simp add: nth_Cons split: nat.splits)
  next
    case (Inr a0)
    define n where "n = Suc joiners"
    define st2 where "st2 = snd (deliverAll n (Inr a0) st1)"
    have A: "fst (deliverAll n (Inr a0) st1) = map (\<lambda>i. Inr (nxt st1 + i)) [0..<n]"
      "lruCache st2 = lruCache st1" "nxt st2 = nxt st1 + n"
      "\<forall>b < nxt st1. cells st2 b = cells st1 b"
      using deliverAll_Inr [of n a0 st1] by (simp_all add: st2_def)
    have ok2: "cacheOk st2"
      using cacheOk_mono [OF F(1) A(2)] A(3) by simp
    have fresh: "\<And>i. \<not> cached st2 (nxt st1 + i)"
      using cacheOk_fresh [OF F(1)] cached_lruCache [OF A(2)] by simp
    have nth: "\<And>i. i < n \<Longrightarrow> fst (deliverAll n (Inr a0) st1) ! i = Inr (nxt st1 + i)"
      unfolding A(1) by simp
    have cells2: "\<forall>b < nxt st. cells st2 b = cells st b"
      using A(4) F(2,3) by simp
    have each: "\<forall>i < n. \<forall>a. fst (deliverAll n (Inr a0) st1) ! i = Inr a \<longrightarrow>
        a < nxt st2 \<and> \<not> cached st2 a \<and>
        (\<forall>j < n. j \<noteq> i \<longrightarrow> fst (deliverAll n (Inr a0) st1) ! j \<noteq> Inr a)"
      using nth fresh A(3) by auto
    have len: "length (fst (deliverAll n (Inr a0) st1)) = n"
      unfolding A(1) by simp
    show "cacheOk (snd (deliverAll (Suc joiners) ret st1)) \<and>
     length (fst (deliverAll (Suc joiners) ret st1)) = Suc joiners \<and>
     (\<forall>b < nxt st. cells (snd (deliverAll (Suc joiners) ret st1)) b = cells st b) \<and>
     (\<forall>i < Suc joiners. \<forall>a. fst (deliverAll (Suc joiners) ret st1) ! i = Inr a \<longrightarrow>
        a < nxt (snd (deliverAll (Suc joiners) ret st1)) \<and>
        \<not> cached (snd (deliverAll (Suc joiners) ret st1)) a \<and>
        (\<forall>j < Suc joiners. j \<noteq> i \<longrightarrow> fst (deliverAll (Suc joiners) ret st1) ! j \<noteq> Inr a))"
      using ok2 len cells2 each unfolding Inr n_def [symmetric] st2_def [symmetric] by simp
  qed
qed

lemma coalesced_props:
  assumes "cacheOk st"
  shows "cacheOk (snd (coalesced r now joiners m st)) \<and>
     length (fst (coalesced r now joiners m st)) = Suc joiners \<and>
     (\<forall>b < nxt st. cells (snd (coalesced r now joiners m st)) b = cells st b) \<and>
     (\<forall>i < Suc joiners. \<forall>a. fst (coalesced r now joiners m st) ! i = Inr a \<longrightarrow>
        a < nxt (snd (coalesced r now joiners m st)) \<and>
        \<not> cached (snd (coalesced r now joiners m st)) a \<and>
        (\<forall>j < Suc joiners. j \<noteq> i \<longrightarrow> fst (coalesced r now joiners m st) ! j \<noteq> Inr a))"
proof (cases "Questions m")
  case Nil
  then have "coalesced r now joiners m st =
      (replicate (Suc joiners) (Inl (Panic ''index out of range'')), st)"
    by (simp add: coalesced_def)
  with assms show ?thesis by (simp add: nth_Cons split: nat.splits)
next
  case (Cons q qs)
  then have "coalesced r now joiners m st =
      deliverAll (Suc joiners) (snd (fst (flight r now q m st))) (snd (flight r now q m st))"
    by (simp add: coalesced_def split: prod.splits)
  with flight_deliverAll_props [OF assms, of joiners r now q m] show ?thesis by simp
qed

text \<open>
  Claim C10. From a state in which the cache holds allocated objects only, an exchange
  ends in such a state, leaves the contents of every object the cache held as they
  were, and the object it returns is allocated and is not an object the cache holds,
  whether the result came from a cache hit (a new copy), from the caller's own upstream
  call (the cache stores a copy) or from a shared one (each caller gets a copy). When
  one upstream call serves several callers, each caller gets an object that the cache
  does not hold and that no other caller got. Hence writing to a returned object
  changes neither a cached response nor another caller's.
\<close>

theorem exchange_results_never_alias_cache:
  assumes "cacheOk st"
  shows "(let out = ExchangeContext r now now' shared m st in
       cacheOk (after out) \<and>
       (\<forall>q c t. lruCache st q = Some (c, t) \<longrightarrow> cells (after out) c = cells st c) \<and>
       (\<forall>a. result out = Inr a \<longrightarrow> a < nxt (after out) \<and> \<not> cached (after out) a)) \<and>
    (let rs = fst (coalesced r now joiners m st);
         st' = snd (coalesced r now joiners m st) in
       cacheOk st' \<and> length rs = Suc joiners \<and>
       (\<forall>q c t. lruCache st q = Some (c, t) \<longrightarrow> cells st' c = cells st c) \<and>
       (\<forall>i < length rs. \<forall>a. rs ! i = Inr a \<longrightarrow>
          a < nxt st' \<and> \<not> cached st' a \<and> (\<forall>j < length rs. j \<noteq> i \<longrightarrow> rs ! j \<noteq> Inr a)))"
proof -
  have old: "\<And>q c t. lruCache st q = Some (c, t) \<Longrightarrow> c < nxt st"
    using assms unfolding cacheOk_def by blast
  note E = ExchangeContext_props [OF assms, of r now now' shared m]
  note C = coalesced_props [OF assms, of r now joiners m]
  have e2: "\<forall>q c t. lruCache st q = Some (c, t) \<longrightarrow>
      cells (after (ExchangeContext r now now' shared m st)) c = cells st c"
    using E old by blast
  have c2: "\<forall>q' c t. lruCache st q' = Some (c, t) \<longrightarrow>
      cells (snd (coalesced r now joiners m st)) c = cells st c"
    using C old by blast
  show ?thesis
    unfolding Let_def using E e2 C c2 by simp
qed

lemma cacheOk_stCached: "cacheOk stCached"
  by (simp add: cacheOk_def stCached_def)

theorem exchange_results_never_alias_cache_witness:
  "result (ExchangeContext rTwoTTLs (40 * Second) (40 * Second) False qExample stCached) = Inr 1 \<and>
   \<not> cached (after (ExchangeContext rTwoTTLs (40 * Second) (40 * Second) False qExample stCached)) 1 \<and>
   cells (after (ExchangeContext rTwoTTLs (40 * Second) (40 * Second) False qExample stCached)) 0
     = cells stCached 0 \<and>
   length (fst (coalesced rTwoTTLs (40 * Second) 2 qExample stCached)) = 3"
proof -
  have hit: "result (ExchangeContext rTwoTTLs (40 * Second) (40 * Second) False qExample stCached)
      = Inr 1"
    by (simp add: ExchangeContext_def qExample_def stCached_def Copy_def alloc_def)
  have old: "lruCache stCached qKey = Some (0, 100 * Second)"
    by (simp add: stCached_def)
  show ?thesis
    using exchange_results_never_alias_cache [OF cacheOk_stCached,
        of rTwoTTLs "40 * Second" "40 * Second" False qExample 2] hit old
    by (auto simp: Let_def)
qed

section \<open>Properties of the dual-stack resolution\<close>




section \<open>Properties of the DoH transport\<close>




end
